theory Spec2Isabelle
  imports Complex_Main "HOL-Library.AList"
begin

section \<open>Strings\<close>

text \<open>
  Topic strings are modelled as \<^typ>\<open>string\<close>; a character is read as the code point
  of the same number (U+0000 to U+00FF). The functions below are the JavaScript string
  operations that \<open>TopicManager.normalizeTopic\<close> uses, on that range.
\<close>

definition isWhiteSpace :: "char \<Rightarrow> bool" where
  \<comment> \<open>the class \<open>\s\<close> of a regular expression, also what \<open>trim\<close> removes:
      TAB, LF, VT, FF, CR, SPACE and NO-BREAK SPACE\<close>
  "isWhiteSpace c \<longleftrightarrow> c \<in> {CHR 0x09, CHR 0x0A, CHR 0x0B, CHR 0x0C, CHR 0x0D, CHR '' '', CHR 0xA0}"

definition isWordChar :: "char \<Rightarrow> bool" where
  \<comment> \<open>the class \<open>\w\<close>: \<open>[A-Za-z0-9_]\<close>\<close>
  "isWordChar c \<longleftrightarrow>
     c \<in> set ''abcdefghijklmnopqrstuvwxyzABCDEFGHIJKLMNOPQRSTUVWXYZ0123456789_''"

definition lowerChar :: "char \<Rightarrow> char" where
  \<comment> \<open>A to Z, and the upper-case letters U+00C0 to U+00DE (U+00D7 is the multiplication sign)\<close>
  "lowerChar c =
     (let n = (of_char c :: nat)
      in if (65 \<le> n \<and> n \<le> 90) \<or> (192 \<le> n \<and> n \<le> 222 \<and> n \<noteq> 215)
         then char_of (n + 32) else c)"

definition toLowerCase :: "string \<Rightarrow> string" where
  "toLowerCase s = map lowerChar s"

definition trim :: "string \<Rightarrow> string" where
  "trim s = rev (dropWhile isWhiteSpace (rev (dropWhile isWhiteSpace s)))"

text \<open>\<open>s.replace(/\s+/g, ' ')\<close>: every maximal run of white space becomes one space.
  The flag says that the character before was white space (the run is already replaced).\<close>

fun collapseFrom :: "bool \<Rightarrow> string \<Rightarrow> string" where
  "collapseFrom inRun [] = []"
| "collapseFrom inRun (c # cs) =
     (if isWhiteSpace c
      then (if inRun then collapseFrom True cs else CHR '' '' # collapseFrom True cs)
      else c # collapseFrom False cs)"

definition collapseWhiteSpace :: "string \<Rightarrow> string" where
  "collapseWhiteSpace s = collapseFrom False s"

text \<open>\<open>s.replace(/[^\w\s]/g, '')\<close>\<close>

definition stripSpecial :: "string \<Rightarrow> string" where
  "stripSpecial s = filter (\<lambda>c. isWordChar c \<or> isWhiteSpace c) s"

text \<open>\<open>s.split(' ')\<close>: the pieces between single spaces; never empty
  (\<open>''.split(' ')\<close> is \<open>['']\<close>), and two adjacent spaces give an empty piece.\<close>

fun split :: "string \<Rightarrow> string list" where
  "split [] = [[]]"
| "split (c # cs) =
     (if c = CHR '' '' then [] # split cs
      else (case split cs of [] \<Rightarrow> [[c]] | w # ws \<Rightarrow> (c # w) # ws))"

text \<open>\<open>words.join(' ')\<close>\<close>

fun join :: "string list \<Rightarrow> string" where
  "join [] = []"
| "join [w] = w"
| "join (w # ws) = w @ CHR '' '' # join ws"

section \<open>The normalizer\<close>

definition stopWords :: "string list" where
  "stopWords = [''a'', ''an'', ''the'', ''and'', ''or'', ''but'', ''of'', ''for'', ''in'', ''on'', ''at'', ''to'']"

definition cleaned :: "string \<Rightarrow> string" where
  \<comment> \<open>steps 1 to 4 of \<open>normalizeTopic\<close>\<close>
  "cleaned topic = stripSpecial (collapseWhiteSpace (trim (toLowerCase topic)))"

definition normalizeTopic :: "string \<Rightarrow> string" where
  "normalizeTopic topic =
     (let normalized = cleaned topic;
          words = split normalized;
          words = (if length words > 1 then filter (\<lambda>word. word \<notin> set stopWords) words else words)
      in join words)"

section \<open>The registry\<close>

text \<open>
  A JavaScript \<open>Map\<close> iterates in insertion order: it is an association list with
  \<^const>\<open>map_of\<close> for \<open>get\<close>, \<^const>\<open>AList.update\<close> for \<open>set\<close> (an existing key keeps
  its place, a new key goes last) and \<^const>\<open>AList.delete\<close> for \<open>delete\<close>. A \<open>Set\<close> is a
  list without repetition, in insertion order. Numbers that count are \<^typ>\<open>nat\<close>,
  the others \<^typ>\<open>real\<close>; \<open>Date.now()\<close> is an argument \<open>now\<close> (milliseconds), one
  reading for one call.
\<close>

record TopicMetadata =
  isCore :: bool
  interestLevel :: real
  discoveryDate :: int
  lastUpdated :: int
  observationCount :: nat
  mentionCount :: nat
  relatedTopics :: "string list"

record TopicManager =
  coreTopics :: "string list"
  discoveredTopics :: "(string \<times> TopicMetadata) list"
  topicRelationships :: "(string \<times> (string \<times> nat) list) list"
  synonyms :: "(string \<times> string) list"

definition similarityThreshold :: real where
  "similarityThreshold = 0.85"

definition setAdd :: "'a \<Rightarrow> 'a list \<Rightarrow> 'a list" where
  \<comment> \<open>\<open>Set.add\<close>\<close>
  "setAdd x xs = (if x \<in> set xs then xs else xs @ [x])"

definition newSet :: "'a list \<Rightarrow> 'a list" where
  \<comment> \<open>\<open>new Set(iterable)\<close>\<close>
  "newSet xs = foldl (\<lambda>acc x. setAdd x acc) [] xs"

definition has :: "('k \<times> 'v) list \<Rightarrow> 'k \<Rightarrow> bool" where
  \<comment> \<open>\<open>Map.has\<close>\<close>
  "has m k \<longleftrightarrow> map_of m k \<noteq> None"

definition getOr0 :: "('k \<times> nat) list \<Rightarrow> 'k \<Rightarrow> nat" where
  \<comment> \<open>\<open>m.get(k) || 0\<close>\<close>
  "getOr0 m k = (case map_of m k of None \<Rightarrow> 0 | Some v \<Rightarrow> v)"

definition emptyManager :: TopicManager where
  \<comment> \<open>the fields as the constructor sets them, before any initial topic\<close>
  "emptyManager = \<lparr>coreTopics = [], discoveredTopics = [], topicRelationships = [], synonyms = []\<rparr>"

definition addTopic :: "int \<Rightarrow> string \<Rightarrow> bool \<Rightarrow> TopicManager \<Rightarrow> string \<times> TopicManager" where
  "addTopic now topic core st =
     (let normalizedTopic = normalizeTopic topic
      in case map_of (discoveredTopics st) normalizedTopic of
           Some metadata \<Rightarrow>
             (if core \<and> \<not> isCore metadata
              then (normalizedTopic,
                    st\<lparr>discoveredTopics :=
                         AList.update normalizedTopic (metadata\<lparr>isCore := True\<rparr>) (discoveredTopics st),
                       coreTopics := setAdd normalizedTopic (coreTopics st)\<rparr>)
              else (normalizedTopic, st))
         | None \<Rightarrow>
             (normalizedTopic,
              st\<lparr>discoveredTopics :=
                   AList.update normalizedTopic
                     \<lparr>isCore = core, interestLevel = (if core then 1.0 else 0.5),
                      discoveryDate = now, lastUpdated = now,
                      observationCount = 0, mentionCount = 0, relatedTopics = []\<rparr>
                     (discoveredTopics st),
                 coreTopics := (if core then setAdd normalizedTopic (coreTopics st) else coreTopics st),
                 topicRelationships := AList.update normalizedTopic [] (topicRelationships st)\<rparr>))"

definition getCanonicalTopic :: "TopicManager \<Rightarrow> string \<Rightarrow> string" where
  \<comment> \<open>\<open>this.synonyms.get(normalized) || normalized\<close>: the empty string is falsy\<close>
  "getCanonicalTopic st topic =
     (let normalized = normalizeTopic topic
      in case map_of (synonyms st) normalized of
           None \<Rightarrow> normalized
         | Some canonical \<Rightarrow> (if canonical = [] then normalized else canonical))"

definition hasTopic :: "TopicManager \<Rightarrow> string \<Rightarrow> bool" where
  "hasTopic st topic =
     (let normalized = normalizeTopic topic
      in has (discoveredTopics st) normalized \<or> has (synonyms st) normalized)"

subsection \<open>Similarity\<close>

definition jaccard :: "string \<Rightarrow> string \<Rightarrow> real" where
  \<comment> \<open>the similarity of \<open>findSimilarTopicByComparison\<close> and \<open>calculateTopicSimilarity\<close>\<close>
  "jaccard normalized existingTopic =
     (let topicWords = newSet (split normalized);
          existingWords = newSet (split existingTopic);
          intersection = newSet (filter (\<lambda>word. word \<in> set existingWords) topicWords);
          union = newSet (topicWords @ existingWords)
      in real (length intersection) / real (length union))"

definition compareStep :: "string \<Rightarrow> real \<Rightarrow> string option \<times> real \<Rightarrow> string \<Rightarrow> string option \<times> real" where
  \<comment> \<open>one turn of the loop of \<open>findSimilarTopicByComparison\<close> on \<open>(bestMatch, bestSimilarity)\<close>\<close>
  "compareStep normalized threshold best existingTopic =
     (if existingTopic = normalized then best
      else let similarity = jaccard normalized existingTopic
           in if similarity > snd best \<and> similarity \<ge> threshold
              then (Some existingTopic, similarity) else best)"

definition findSimilarTopicByComparison :: "string \<Rightarrow> real \<Rightarrow> TopicManager \<Rightarrow> string option" where
  "findSimilarTopicByComparison normalized threshold st =
     fst (foldl (compareStep normalized threshold) (None, 0) (map fst (discoveredTopics st)))"

text \<open>\<open>findSimilarTopicViaLLM\<close> asks the language model; \<open>llm\<close> is what that call returns
  (\<open>None\<close> for \<open>null\<close>), it is read only when the registry holds 100 topics or more.\<close>

definition findSimilarTopic :: "string option \<Rightarrow> string \<Rightarrow> real \<Rightarrow> TopicManager \<Rightarrow> string option" where
  "findSimilarTopic llm topic threshold st =
     (let normalized = normalizeTopic topic
      in if has (discoveredTopics st) normalized then Some normalized
         else if has (synonyms st) normalized then map_of (synonyms st) normalized
         else if length (discoveredTopics st) < 100
              then findSimilarTopicByComparison normalized threshold st
              else llm)"

subsection \<open>Interest and relationships\<close>

definition updateInterestLevel :: "int \<Rightarrow> string \<Rightarrow> TopicManager \<Rightarrow> TopicManager" where
  "updateInterestLevel now topic st =
     (case map_of (discoveredTopics st) topic of
        None \<Rightarrow> st
      | Some metadata \<Rightarrow>
          (let daysSinceLastUpdate = real_of_int (now - lastUpdated metadata) / (1000 * 60 * 60 * 24);
               recencyFactor = exp (- 0.1 * daysSinceLastUpdate);
               frequencyFactor = min 1.0 (real (observationCount metadata) / 10)
           in st\<lparr>discoveredTopics :=
                   AList.update topic
                     (metadata\<lparr>interestLevel :=
                        (if isCore metadata
                         then max 0.7 (0.3 * recencyFactor + 0.7 * frequencyFactor)
                         else 0.6 * recencyFactor + 0.4 * frequencyFactor)\<rparr>)
                     (discoveredTopics st)\<rparr>))"

definition incrementRelationship :: "string \<Rightarrow> string \<Rightarrow> TopicManager \<Rightarrow> TopicManager" where
  "incrementRelationship topic1 topic2 st =
     (let relationships = (case map_of (topicRelationships st) topic1 of None \<Rightarrow> [] | Some r \<Rightarrow> r);
          currentStrength = getOr0 relationships topic2;
          st1 = st\<lparr>topicRelationships :=
                    AList.update topic1 (AList.update topic2 (currentStrength + 1) relationships)
                      (topicRelationships st)\<rparr>
      in case map_of (discoveredTopics st1) topic1 of
           None \<Rightarrow> st1
         | Some metadata \<Rightarrow>
             (if topic2 \<notin> set (relatedTopics metadata)
              then st1\<lparr>discoveredTopics :=
                        AList.update topic1 (metadata\<lparr>relatedTopics := relatedTopics metadata @ [topic2]\<rparr>)
                          (discoveredTopics st1)\<rparr>
              else st1))"

fun updateTopicRelationships :: "string list \<Rightarrow> TopicManager \<Rightarrow> TopicManager" where
  \<comment> \<open>the loops over \<open>i\<close> and \<open>j > i\<close>: the head of the list with every later element, then the rest\<close>
  "updateTopicRelationships [] st = st"
| "updateTopicRelationships (topic1 # rest) st =
     updateTopicRelationships rest
       (foldl (\<lambda>s topic2. incrementRelationship topic2 topic1 (incrementRelationship topic1 topic2 s)) st rest)"

definition updateTopicMetadata :: "int \<Rightarrow> string \<Rightarrow> TopicManager \<Rightarrow> TopicManager" where
  "updateTopicMetadata now topic st =
     (case map_of (discoveredTopics st) topic of
        None \<Rightarrow> st
      | Some metadata \<Rightarrow>
          updateInterestLevel now topic
            (st\<lparr>discoveredTopics :=
                 AList.update topic (metadata\<lparr>mentionCount := mentionCount metadata + 1, lastUpdated := now\<rparr>)
                   (discoveredTopics st)\<rparr>))"

definition observeTopic :: "int \<Rightarrow> string list \<Rightarrow> TopicManager \<Rightarrow> string \<Rightarrow> TopicManager" where
  \<comment> \<open>the body of the \<open>forEach\<close> of \<open>trackObservation\<close>, for one element of \<open>uniqueTopics\<close>\<close>
  "observeTopic now uniqueTopics st topic =
     (let st1 = (case map_of (discoveredTopics st) topic of
                   None \<Rightarrow> st
                 | Some metadata \<Rightarrow>
                     updateInterestLevel now topic
                       (st\<lparr>discoveredTopics :=
                            AList.update topic
                              (metadata\<lparr>observationCount := observationCount metadata + 1,
                                        mentionCount := mentionCount metadata + 1,
                                        lastUpdated := now\<rparr>)
                              (discoveredTopics st)\<rparr>))
      in updateTopicRelationships uniqueTopics st1)"

definition trackObservation :: "int \<Rightarrow> string list \<Rightarrow> TopicManager \<Rightarrow> TopicManager" where
  "trackObservation now topics st =
     (let uniqueTopics = newSet (map (getCanonicalTopic st) topics)
      in foldl (observeTopic now uniqueTopics) st uniqueTopics)"

definition getRelatedTopics :: "TopicManager \<Rightarrow> string \<Rightarrow> nat \<Rightarrow> string list" where
  \<comment> \<open>the sort is stable, by falling strength\<close>
  "getRelatedTopics st topic limit =
     (case map_of (topicRelationships st) (getCanonicalTopic st topic) of
        None \<Rightarrow> []
      | Some relationships \<Rightarrow>
          map fst (take limit (sort_key (\<lambda>entry. - int (snd entry)) relationships)))"

definition getTopicMetadata :: "TopicManager \<Rightarrow> string \<Rightarrow> TopicMetadata option" where
  "getTopicMetadata st topic = map_of (discoveredTopics st) (getCanonicalTopic st topic)"

subsection \<open>Discovery and merging\<close>

text \<open>One turn of the loop of \<open>discoverTopicsFromText\<close>, on \<open>(newTopics, state)\<close>: \<open>topic\<close> is
  an extracted topic and \<open>llm\<close> the answer of the language model for it, were it asked.
  The value \<open>similarTopic\<close> is tested for truth: the empty string counts as \<open>null\<close>.\<close>

definition discoverStep :: "int \<Rightarrow> string list \<times> TopicManager \<Rightarrow> string \<times> string option \<Rightarrow> string list \<times> TopicManager" where
  "discoverStep now acc extracted =
     (let newTopics = fst acc; st = snd acc;
          normalizedTopic = normalizeTopic (fst extracted)
      in if normalizedTopic = [] then acc
         else (case findSimilarTopic (snd extracted) normalizedTopic similarityThreshold st of
                 None \<Rightarrow> (newTopics @ [normalizedTopic], snd (addTopic now normalizedTopic False st))
               | Some similarTopic \<Rightarrow>
                   (if similarTopic = []
                    then (newTopics @ [normalizedTopic], snd (addTopic now normalizedTopic False st))
                    else (newTopics,
                          updateTopicMetadata now similarTopic
                            (if similarTopic \<noteq> normalizedTopic
                             then st\<lparr>synonyms := AList.update normalizedTopic similarTopic (synonyms st)\<rparr>
                             else st)))))"

definition discoverTopicsFromText :: "int \<Rightarrow> (string \<times> string option) list \<Rightarrow> TopicManager \<Rightarrow> string list \<times> TopicManager" where
  \<comment> \<open>\<open>extractedTopics\<close> is what \<open>extractTopicsViaLLM\<close> returned for the text\<close>
  "discoverTopicsFromText now extractedTopics st = foldl (discoverStep now) ([], st) extractedTopics"

definition foldRow :: "(string \<times> nat) list \<Rightarrow> (string \<times> nat) list \<Rightarrow> (string \<times> nat) list" where
  \<comment> \<open>the loop of \<open>mergeTopic\<close> over the entries of the source's row, adding each to the target's row\<close>
  "foldRow targetRelationships sourceRelationships =
     foldl (\<lambda>row entry. AList.update (fst entry) (getOr0 row (fst entry) + snd entry) row)
       targetRelationships sourceRelationships"

definition rewriteRow :: "string \<Rightarrow> string \<Rightarrow> (string \<times> nat) list \<Rightarrow> (string \<times> nat) list" where
  \<comment> \<open>the body of the last loop of \<open>mergeTopic\<close>, for one row\<close>
  "rewriteRow sourceCanonical targetCanonical relationships =
     (if has relationships sourceCanonical
      then (let strength = getOr0 relationships sourceCanonical;
                targetStrength = getOr0 relationships targetCanonical
            in AList.delete sourceCanonical
                 (AList.update targetCanonical (strength + targetStrength) relationships))
      else relationships)"

definition mergeTopic :: "string \<Rightarrow> string \<Rightarrow> TopicManager \<Rightarrow> bool \<times> TopicManager" where
  "mergeTopic sourceTopic targetTopic st =
     (let sourceCanonical = getCanonicalTopic st sourceTopic;
          targetCanonical = getCanonicalTopic st targetTopic
      in if sourceCanonical = targetCanonical then (False, st)
         else (case map_of (discoveredTopics st) sourceCanonical of
                 None \<Rightarrow> (False, st)
               | Some sourceMetadata \<Rightarrow>
                   (case map_of (discoveredTopics st) targetCanonical of
                      None \<Rightarrow> (False, st)
                    | Some targetMetadata \<Rightarrow>
                        (let merged = targetMetadata
                               \<lparr>observationCount := observationCount targetMetadata + observationCount sourceMetadata,
                                mentionCount := mentionCount targetMetadata + mentionCount sourceMetadata,
                                interestLevel := max (interestLevel targetMetadata) (interestLevel sourceMetadata),
                                isCore := (if isCore sourceMetadata then True else isCore targetMetadata),
                                relatedTopics :=
                                  filter (\<lambda>t. t \<noteq> targetCanonical)
                                    (newSet (relatedTopics targetMetadata @ relatedTopics sourceMetadata))\<rparr>;
                             core1 = (if isCore sourceMetadata then setAdd targetCanonical (coreTopics st)
                                      else coreTopics st);
                             targetRelationships =
                               (case map_of (topicRelationships st) targetCanonical of None \<Rightarrow> [] | Some r \<Rightarrow> r);
                             rels1 = (case map_of (topicRelationships st) sourceCanonical of
                                        None \<Rightarrow> topicRelationships st
                                      | Some sourceRelationships \<Rightarrow>
                                          AList.update targetCanonical
                                            (foldRow targetRelationships sourceRelationships)
                                            (topicRelationships st))
                         in (True,
                             \<lparr>coreTopics = removeAll sourceCanonical core1,
                              discoveredTopics =
                                AList.delete sourceCanonical
                                  (AList.update targetCanonical merged (discoveredTopics st)),
                              topicRelationships =
                                map (\<lambda>row. (fst row, rewriteRow sourceCanonical targetCanonical (snd row)))
                                  (AList.delete sourceCanonical rels1),
                              synonyms = AList.update sourceCanonical targetCanonical (synonyms st)\<rparr>)))))"

subsection \<open>Reachable states\<close>

text \<open>The states that the public operations produce from the constructor's empty registry.
  Loading a saved snapshot is left out: it installs whatever the cache holds.\<close>

inductive reachable :: "TopicManager \<Rightarrow> bool" where
  r_empty: "reachable emptyManager"
| r_addTopic: "reachable st \<Longrightarrow> reachable (snd (addTopic now topic core st))"
| r_discover: "reachable st \<Longrightarrow> reachable (snd (discoverTopicsFromText now extractedTopics st))"
| r_track: "reachable st \<Longrightarrow> reachable (trackObservation now topics st)"
| r_merge: "reachable st \<Longrightarrow> reachable (snd (mergeTopic sourceTopic targetTopic st))"

definition strength :: "TopicManager \<Rightarrow> string \<Rightarrow> string \<Rightarrow> nat" where
  \<comment> \<open>the weight of the edge from \<open>a\<close> to \<open>b\<close>: 0 when there is no row or no entry\<close>
  "strength st a b = (case map_of (topicRelationships st) a of None \<Rightarrow> 0 | Some row \<Rightarrow> getOr0 row b)"

definition interestOf :: "TopicManager \<Rightarrow> string \<Rightarrow> real option" where
  \<comment> \<open>the \<open>interestLevel\<close> of the live record under a key\<close>
  "interestOf st topic = map_option interestLevel (map_of (discoveredTopics st) topic)"

definition mentionsOf :: "TopicManager \<Rightarrow> string \<Rightarrow> nat option" where
  \<comment> \<open>the \<open>mentionCount\<close> of the live record under a key\<close>
  "mentionsOf st topic = map_option mentionCount (map_of (discoveredTopics st) topic)"

subsection \<open>Graph predicates and example registries\<close>

definition rowsDistinct :: "TopicManager \<Rightarrow> bool" where
  \<comment> \<open>every adjacency row is a \<open>Map\<close>: no key twice\<close>
  "rowsDistinct st \<longleftrightarrow> (\<forall>row \<in> snd ` set (topicRelationships st). distinct (map fst row))"

definition symmetric :: "TopicManager \<Rightarrow> bool" where
  "symmetric st \<longleftrightarrow> (\<forall>a b. strength st a b = strength st b a)"

text \<open>The similarity in the spec's words: the Jaccard index of the two sets of
  whitespace-split tokens, a token being a maximal run of characters that are not white
  space. \<open>jaccard\<close> above is the code's: its tokens are the pieces of \<open>split(' ')\<close>.\<close>

definition tokens :: "string \<Rightarrow> string list" where
  "tokens s = filter (\<lambda>w. w \<noteq> []) (split (collapseWhiteSpace s))"

definition wordSetJaccard :: "string \<Rightarrow> string \<Rightarrow> real" where
  "wordSetJaccard a b =
     real (card (set (tokens a) \<inter> set (tokens b))) / real (card (set (tokens a) \<union> set (tokens b)))"


definition oneTopic :: TopicManager where
  "oneTopic = snd (addTopic 0 ''x'' False emptyManager)"

definition twoTopics :: TopicManager where
  "twoTopics = snd (addTopic 0 ''y'' False oneTopic)"

definition threeTopics :: TopicManager where
  "threeTopics = snd (addTopic 0 ''z'' False twoTopics)"

definition mergedOnce :: TopicManager where
  "mergedOnce = snd (mergeTopic ''x'' ''y'' threeTopics)"

definition mergedTwice :: TopicManager where
  "mergedTwice = snd (mergeTopic ''y'' ''z'' mergedOnce)"

definition pairObserved :: TopicManager where
  "pairObserved = trackObservation 0 [''x'', ''y''] twoTopics"

definition registeredLate :: TopicManager where
  \<comment> \<open>two keys observed together before either is registered, then one of them registered\<close>
  "registeredLate = snd (addTopic 0 ''x'' False (trackObservation 0 [''x'', ''y''] emptyManager))"

definition emptyKeyRegistered :: TopicManager where
  \<comment> \<open>the empty string registered as a topic, beside \<open>x\<close>\<close>
  "emptyKeyRegistered = snd (addTopic 0 [] False oneTopic)"

definition spacedKey :: TopicManager where
  \<comment> \<open>one topic whose key has two adjacent spaces, left by the stripped hyphen\<close>
  "spacedKey = snd (addTopic 0 ''b - c d e f g h'' False emptyManager)"

definition twoPhrases :: TopicManager where
  "twoPhrases = snd (addTopic 0 ''x y'' False (snd (addTopic 0 ''y z'' False emptyManager)))"

section \<open>Properties of the normalizer\<close>

lemmas string_defs =
  normalizeTopic_def cleaned_def stripSpecial_def collapseWhiteSpace_def trim_def
  toLowerCase_def lowerChar_def isWhiteSpace_def isWordChar_def stopWords_def

lemma split_not_Nil: "split s \<noteq> []"
  by (induction s) (auto split: list.splits)

lemma split_without_space: "CHR '' '' \<notin> set s \<Longrightarrow> split s = [s]"
  by (induction s) auto

lemma split_with_space: "CHR '' '' \<in> set s \<Longrightarrow> 1 < length (split s)"
proof (induction s)
  case Nil
  then show ?case by simp
next
  case (Cons c cs)
  show ?case
  proof (cases "c = CHR '' ''")
    case True
    then show ?thesis using split_not_Nil [of cs] by (cases "split cs") auto
  next
    case False
    with Cons show ?thesis by (auto split: list.splits)
  qed
qed

lemma join_all_stop: "join (filter (\<lambda>w. w \<notin> set stopWords) ws) = []" if "set ws \<subseteq> set stopWords"
proof -
  from that have "filter (\<lambda>w. w \<notin> set stopWords) ws = []"
    by (auto simp: filter_empty_conv)
  then show ?thesis by simp
qed

text \<open>
  C5. \<open>normalizeTopic\<close> is not idempotent: special characters are removed after the runs of
  white space are collapsed, so \<open>x - y\<close> becomes \<open>x\<close>, two spaces, \<open>y\<close>; a second pass
  collapses the two spaces to one.
\<close>

theorem normalizeTopic_twice_differs:
  "normalizeTopic ''x - y'' = ''x  y'' \<and> normalizeTopic (normalizeTopic ''x - y'') = ''x y''"
  by (simp add: string_defs)

text \<open>
  C6, as stated, fails: the cleaned form \<open>the and\<close> is made of stop-words only, and
  \<open>normalizeTopic\<close> returns the empty string for it, not the cleaned string.
\<close>

theorem stop_words_only_counterexample:
  "cleaned ''the and'' = ''the and'' \<and> split ''the and'' = [''the'', ''and'']
   \<and> ''the'' \<in> set stopWords \<and> ''and'' \<in> set stopWords
   \<and> normalizeTopic ''the and'' = []"
  by (simp add: string_defs)

text \<open>
  C6, amended. The guard of the code is the number of tokens, not what would remain:
  a cleaned form of a single token (no space in it) is returned as it is, a stop-word too;
  a cleaned form of two or more tokens loses every stop-word token, and gives the empty
  string when all its tokens are stop-words.
\<close>

theorem normalizeTopic_stop_word_guard:
  "(CHR '' '' \<notin> set (cleaned s) \<longrightarrow> normalizeTopic s = cleaned s)
   \<and> (CHR '' '' \<in> set (cleaned s) \<longrightarrow>
        normalizeTopic s = join (filter (\<lambda>w. w \<notin> set stopWords) (split (cleaned s))))
   \<and> (CHR '' '' \<in> set (cleaned s) \<and> set (split (cleaned s)) \<subseteq> set stopWords \<longrightarrow>
        normalizeTopic s = [])"
proof (intro conjI impI)
  assume "CHR '' '' \<notin> set (cleaned s)"
  then have "split (cleaned s) = [cleaned s]" by (rule split_without_space)
  then show "normalizeTopic s = cleaned s" by (simp add: normalizeTopic_def)
next
  assume "CHR '' '' \<in> set (cleaned s)"
  then have "1 < length (split (cleaned s))" by (rule split_with_space)
  then show "normalizeTopic s = join (filter (\<lambda>w. w \<notin> set stopWords) (split (cleaned s)))"
    by (simp add: normalizeTopic_def Let_def)
next
  assume a: "CHR '' '' \<in> set (cleaned s) \<and> set (split (cleaned s)) \<subseteq> set stopWords"
  then have "1 < length (split (cleaned s))" using split_with_space by blast
  then have "normalizeTopic s = join (filter (\<lambda>w. w \<notin> set stopWords) (split (cleaned s)))"
    by (simp add: normalizeTopic_def Let_def)
  with a show "normalizeTopic s = []" by (simp add: join_all_stop)
qed

theorem normalizeTopic_stop_word_guard_witness:
  "CHR '' '' \<notin> set (cleaned ''The'') \<and> normalizeTopic ''The'' = ''the''
   \<and> CHR '' '' \<in> set (cleaned ''of the  Cat'') \<and> normalizeTopic ''of the  Cat'' = ''cat''
   \<and> CHR '' '' \<in> set (cleaned ''the and'') \<and> set (split (cleaned ''the and'')) \<subseteq> set stopWords
   \<and> normalizeTopic ''the and'' = []"
proof -
  have c1: "cleaned ''The'' = ''the''" and c2: "cleaned ''of the  Cat'' = ''of the cat''"
    and c3: "cleaned ''the and'' = ''the and''"
    by code_simp+
  have s3: "set (split (cleaned ''the and'')) \<subseteq> set stopWords"
    by (simp add: c3 stopWords_def)
  show ?thesis
    using normalizeTopic_stop_word_guard [of "''The''"]
      normalizeTopic_stop_word_guard [of "''of the  Cat''"]
      normalizeTopic_stop_word_guard [of "''the and''"] s3
    by (simp add: c1 c2 c3 stopWords_def)
qed

section \<open>Interest level\<close>

text \<open>
  C8. For a core topic, \<open>updateInterestLevel\<close> stores
  \<open>max 0.7 (0.3 * recency + 0.7 * frequency)\<close>, with \<open>recency = exp (- 0.1 * days)\<close> and
  \<open>frequency = min 1 (observationCount / 10)\<close>, so the stored level is at least 0.7 whatever
  the time since the last update. Numbers are real numbers here, not doubles.
\<close>

theorem core_interest_floor:
  assumes "map_of (discoveredTopics st) topic = Some metadata" and "isCore metadata"
  shows "interestOf (updateInterestLevel now topic st) topic =
           Some (max 0.7 (0.3 * exp (- 0.1 * (real_of_int (now - lastUpdated metadata) / 86400000))
                          + 0.7 * min 1.0 (real (observationCount metadata) / 10)))
         \<and> (\<forall>level. interestOf (updateInterestLevel now topic st) topic = Some level \<longrightarrow> 0.7 \<le> level)"
proof -
  let ?score = "0.3 * exp (- 0.1 * (real_of_int (now - lastUpdated metadata) / 86400000))
                + 0.7 * min 1.0 (real (observationCount metadata) / 10)"
  have stored: "interestOf (updateInterestLevel now topic st) topic = Some (max 0.7 ?score)"
    using assms by (simp add: updateInterestLevel_def interestOf_def Let_def update_conv')
  have "(0.7::real) \<le> max 0.7 ?score"
    by (rule max.cobounded1)
  with stored show ?thesis
    by (metis option.inject)
qed

theorem core_interest_floor_witness:
  "interestOf
     (updateInterestLevel 2592000000 ''ai''
        \<lparr>coreTopics = [''ai''],
         discoveredTopics =
           [(''ai'', \<lparr>isCore = True, interestLevel = 1, discoveryDate = 0, lastUpdated = 0,
                     observationCount = 0, mentionCount = 0, relatedTopics = []\<rparr>)],
         topicRelationships = [(''ai'', [])], synonyms = []\<rparr>) ''ai''
   = Some (max 0.7 (0.3 * exp (- 3)))"
  using core_interest_floor
    [of "\<lparr>coreTopics = [''ai''],
         discoveredTopics =
           [(''ai'', \<lparr>isCore = True, interestLevel = 1, discoveryDate = 0, lastUpdated = 0,
                     observationCount = 0, mentionCount = 0, relatedTopics = []\<rparr>)],
         topicRelationships = [(''ai'', [])], synonyms = []\<rparr>" "''ai''"
        "\<lparr>isCore = True, interestLevel = 1, discoveryDate = 0, lastUpdated = 0,
                     observationCount = 0, mentionCount = 0, relatedTopics = []\<rparr>" 2592000000]
  by simp

section \<open>Merging\<close>

text \<open>
  C9. \<open>mergeTopic\<close> returns false exactly when the two canonical keys are equal or one of
  them has no live record, and a call that returns false leaves the whole state as it was.
\<close>

theorem mergeTopic_false:
  "(\<not> fst (mergeTopic sourceTopic targetTopic st) \<longleftrightarrow>
      getCanonicalTopic st sourceTopic = getCanonicalTopic st targetTopic
      \<or> \<not> has (discoveredTopics st) (getCanonicalTopic st sourceTopic)
      \<or> \<not> has (discoveredTopics st) (getCanonicalTopic st targetTopic))
   \<and> (\<not> fst (mergeTopic sourceTopic targetTopic st) \<longrightarrow>
        snd (mergeTopic sourceTopic targetTopic st) = st)"
  by (auto simp: mergeTopic_def has_def Let_def split: option.splits)

theorem mergeTopic_false_witness:
  "\<not> has (discoveredTopics emptyManager) (getCanonicalTopic emptyManager ''x'')
   \<and> \<not> fst (mergeTopic ''x'' ''y'' emptyManager)
   \<and> snd (mergeTopic ''x'' ''y'' emptyManager) = emptyManager"
proof -
  have unknown: "\<not> has (discoveredTopics emptyManager) (getCanonicalTopic emptyManager ''x'')"
    by (simp add: has_def emptyManager_def)
  with mergeTopic_false [of "''x''" "''y''" emptyManager] show ?thesis
    by blast
qed

section \<open>Sets, rows and edge strengths\<close>

lemmas registry_defs =
  addTopic_def emptyManager_def setAdd_def Let_def trackObservation_def newSet_def
  getCanonicalTopic_def observeTopic_def updateInterestLevel_def incrementRelationship_def
  getOr0_def mergeTopic_def foldRow_def rewriteRow_def has_def strength_def getRelatedTopics_def

lemmas example_defs =
  oneTopic_def twoTopics_def threeTopics_def mergedOnce_def mergedTwice_def pairObserved_def
  registeredLate_def twoPhrases_def emptyKeyRegistered_def spacedKey_def

lemma normalizeTopic_letters:
  "normalizeTopic ''x'' = ''x''" "normalizeTopic ''y'' = ''y''" "normalizeTopic ''z'' = ''z''"
  "normalizeTopic ''x y'' = ''x y''" "normalizeTopic ''y z'' = ''y z''"
  "normalizeTopic ''x y z'' = ''x y z''" "normalizeTopic [] = []"
  by (simp_all add: string_defs)

lemma set_foldl_setAdd: "set (foldl (\<lambda>acc x. setAdd x acc) acc xs) = set acc \<union> set xs"
  by (induction xs arbitrary: acc) (auto simp: setAdd_def)

lemma distinct_foldl_setAdd: "distinct acc \<Longrightarrow> distinct (foldl (\<lambda>acc x. setAdd x acc) acc xs)"
  by (induction xs arbitrary: acc) (auto simp: setAdd_def)

lemma set_newSet [simp]: "set (newSet xs) = set xs"
  by (simp add: newSet_def set_foldl_setAdd)

lemma distinct_newSet [simp]: "distinct (newSet xs)"
  by (simp add: newSet_def distinct_foldl_setAdd)

lemma getOr0_update: "getOr0 (AList.update k v row) x = (if x = k then v else getOr0 row x)"
  by (simp add: getOr0_def update_conv')

lemma getOr0_delete: "getOr0 (AList.delete k row) x = (if x = k then 0 else getOr0 row x)"
  by (simp add: getOr0_def delete_conv')

lemma getOr0_Nil [simp]: "getOr0 [] x = 0"
  by (simp add: getOr0_def)

lemma relationships_updateInterestLevel [simp]:
  "topicRelationships (updateInterestLevel now topic st) = topicRelationships st"
  by (simp add: updateInterestLevel_def Let_def split: option.splits)

lemma strength_cong: "topicRelationships st' = topicRelationships st \<Longrightarrow> strength st' a b = strength st a b"
  by (simp add: strength_def)

lemma relationships_incrementRelationship:
  "topicRelationships (incrementRelationship topic1 topic2 st) =
     AList.update topic1
       (AList.update topic2 (strength st topic1 topic2 + 1)
          (case map_of (topicRelationships st) topic1 of None \<Rightarrow> [] | Some r \<Rightarrow> r))
       (topicRelationships st)"
  by (auto simp: incrementRelationship_def strength_def Let_def split: option.splits)

lemma strength_incrementRelationship:
  "strength (incrementRelationship topic1 topic2 st) a b =
     strength st a b + (if a = topic1 \<and> b = topic2 then 1 else 0)"
  by (auto simp: relationships_incrementRelationship strength_def update_conv' getOr0_update split: option.splits)

lemma strength_pairs_with:
  "strength (foldl (\<lambda>s topic2. incrementRelationship topic2 topic1 (incrementRelationship topic1 topic2 s)) st rest) a b =
     strength st a b + (if a = topic1 then count_list rest b else 0) + (if b = topic1 then count_list rest a else 0)"
  by (induction rest arbitrary: st) (auto simp: strength_incrementRelationship)

lemma count_list_distinct: "distinct xs \<Longrightarrow> count_list xs x = (if x \<in> set xs then 1 else 0)"
  by (induction xs) auto

text \<open>One call of \<open>trackObservation\<close> adds to the edge between two distinct canonical topics of
  the observation the number of distinct canonical topics in it: \<open>updateTopicRelationships\<close>
  runs once for each element of \<open>uniqueTopics\<close>.\<close>

lemma strength_updateTopicRelationships:
  "distinct topics \<Longrightarrow>
   strength (updateTopicRelationships topics st) a b =
     strength st a b + (if a \<noteq> b \<and> a \<in> set topics \<and> b \<in> set topics then 1 else 0)"
proof (induction topics arbitrary: st)
  case Nil
  then show ?case by simp
next
  case (Cons t rest)
  from Cons.prems have d: "distinct rest" and t: "t \<notin> set rest" by simp_all
  show ?case
    unfolding updateTopicRelationships.simps Cons.IH [OF d] strength_pairs_with count_list_distinct [OF d]
    using t by auto
qed

lemma strength_updateInterestLevel [simp]: "strength (updateInterestLevel now topic st) = strength st"
  by (intro ext) (simp add: strength_def)

lemma strength_discoveredTopics_update [simp]: "strength (st\<lparr>discoveredTopics := d\<rparr>) = strength st"
  by (intro ext) (simp add: strength_def)

lemma strength_observeTopic:
  "distinct uniqueTopics \<Longrightarrow>
   strength (observeTopic now uniqueTopics st topic) a b =
     strength st a b + (if a \<noteq> b \<and> a \<in> set uniqueTopics \<and> b \<in> set uniqueTopics then 1 else 0)"
  unfolding observeTopic_def Let_def
  by (simp add: strength_updateTopicRelationships split: option.splits)

lemma strength_foldl_observeTopic:
  "distinct uniqueTopics \<Longrightarrow>
   strength (foldl (observeTopic now uniqueTopics) st ts) a b =
     strength st a b + (if a \<noteq> b \<and> a \<in> set uniqueTopics \<and> b \<in> set uniqueTopics then length ts else 0)"
  by (induction ts arbitrary: st) (simp_all add: strength_observeTopic)

lemma strength_trackObservation:
  "strength (trackObservation now topics st) a b =
     strength st a b +
       (if a \<noteq> b \<and> a \<in> getCanonicalTopic st ` set topics \<and> b \<in> getCanonicalTopic st ` set topics
        then length (newSet (map (getCanonicalTopic st) topics)) else 0)"
  unfolding trackObservation_def Let_def
  by (simp add: strength_foldl_observeTopic)

subsection \<open>The edges after a merge\<close>

lemma getOr0_absent: "k \<notin> fst ` set row \<Longrightarrow> getOr0 row k = 0"
proof -
  assume "k \<notin> fst ` set row"
  then have "map_of row k = None" by (simp add: map_of_eq_None_iff)
  then show ?thesis by (simp add: getOr0_def)
qed

lemma getOr0_Cons: "getOr0 ((k, v) # row) x = (if x = k then v else getOr0 row x)"
  by (simp add: getOr0_def)

lemma getOr0_foldRow:
  "distinct (map fst sourceRelationships) \<Longrightarrow>
   getOr0 (foldRow targetRelationships sourceRelationships) x =
     getOr0 targetRelationships x + getOr0 sourceRelationships x"
  unfolding foldRow_def
proof (induction sourceRelationships arbitrary: targetRelationships)
  case Nil
  then show ?case by simp
next
  case (Cons entry rest)
  obtain k v where entry: "entry = (k, v)" by (cases entry)
  from Cons.prems entry have d: "distinct (map fst rest)" and k: "k \<notin> fst ` set rest" by auto
  show ?case
    by (simp add: entry Cons.IH [OF d] getOr0_update getOr0_Cons getOr0_absent [OF k])
qed

lemma getOr0_rewriteRow:
  "sourceCanonical \<noteq> targetCanonical \<Longrightarrow>
   getOr0 (rewriteRow sourceCanonical targetCanonical row) x =
     (if x = sourceCanonical then 0
      else if x = targetCanonical then getOr0 row sourceCanonical + getOr0 row targetCanonical
      else getOr0 row x)"
proof (cases "map_of row sourceCanonical")
  case None
  then have "getOr0 row sourceCanonical = 0" by (simp add: getOr0_def)
  with None show ?thesis by (simp add: rewriteRow_def has_def)
next
  case (Some y)
  assume "sourceCanonical \<noteq> targetCanonical"
  with Some show ?thesis
    by (simp add: rewriteRow_def has_def Let_def getOr0_delete getOr0_update)
qed

lemma map_of_map_rows:
  "map_of (map (\<lambda>row. (fst row, f (snd row))) rows) k = map_option f (map_of rows k)"
  by (induction rows) auto


lemma mergeTopic_relationships:
  assumes "fst (mergeTopic sourceTopic targetTopic st)"
  shows "topicRelationships (snd (mergeTopic sourceTopic targetTopic st)) =
     map (\<lambda>row. (fst row, rewriteRow (getCanonicalTopic st sourceTopic) (getCanonicalTopic st targetTopic) (snd row)))
       (AList.delete (getCanonicalTopic st sourceTopic)
          (case map_of (topicRelationships st) (getCanonicalTopic st sourceTopic) of
             None \<Rightarrow> topicRelationships st
           | Some sourceRelationships \<Rightarrow>
               AList.update (getCanonicalTopic st targetTopic)
                 (foldRow (case map_of (topicRelationships st) (getCanonicalTopic st targetTopic) of None \<Rightarrow> [] | Some r \<Rightarrow> r)
                    sourceRelationships)
                 (topicRelationships st)))"
  using assms by (simp add: mergeTopic_def Let_def split: if_splits option.splits)

lemma mergeTopic_distinct_keys:
  "fst (mergeTopic sourceTopic targetTopic st) \<Longrightarrow> getCanonicalTopic st sourceTopic \<noteq> getCanonicalTopic st targetTopic"
  by (auto simp: mergeTopic_def Let_def split: if_splits option.splits)

lemma strength_mergeTopic:
  assumes ok: "fst (mergeTopic sourceTopic targetTopic st)" and rows: "rowsDistinct st"
  defines "S \<equiv> getCanonicalTopic st sourceTopic" and "T \<equiv> getCanonicalTopic st targetTopic"
  shows "strength (snd (mergeTopic sourceTopic targetTopic st)) a b =
     (if a = S \<or> b = S then 0
      else if a = T \<and> b = T then strength st T T + strength st S T + strength st T S + strength st S S
      else if a = T then strength st T b + strength st S b
      else if b = T then strength st a T + strength st a S
      else strength st a b)"
proof -
  have ne: "S \<noteq> T" using ok by (simp add: S_def T_def mergeTopic_distinct_keys)
  define rels1 where "rels1 = (case map_of (topicRelationships st) S of
             None \<Rightarrow> topicRelationships st
           | Some sourceRelationships \<Rightarrow>
               AList.update T
                 (foldRow (case map_of (topicRelationships st) T of None \<Rightarrow> [] | Some r \<Rightarrow> r)
                    sourceRelationships)
                 (topicRelationships st))"
  define w1 where "w1 x y = (case map_of rels1 x of None \<Rightarrow> 0 | Some row \<Rightarrow> getOr0 row y)" for x y
  have w1: "w1 x y = (if x = T then strength st T y + strength st S y else strength st x y)" for x y
  proof (cases "map_of (topicRelationships st) S")
    case None
    then show ?thesis by (simp add: w1_def rels1_def strength_def)
  next
    case (Some srow)
    then have "srow \<in> snd ` set (topicRelationships st)"
      by (metis map_of_SomeD snd_conv image_eqI)
    with rows have d: "distinct (map fst srow)" by (auto simp: rowsDistinct_def)
    show ?thesis
      using Some by (simp add: w1_def rels1_def strength_def update_conv' getOr0_foldRow [OF d] split: option.splits)
  qed
  have "strength (snd (mergeTopic sourceTopic targetTopic st)) a b =
     (if a = S then 0 else case map_of rels1 a of None \<Rightarrow> 0 | Some row \<Rightarrow> getOr0 (rewriteRow S T row) b)"
    unfolding strength_def mergeTopic_relationships [OF ok] map_of_map_rows delete_conv' rels1_def S_def T_def
    by (simp split: option.splits)
  also have "\<dots> = (if a = S then 0 else if b = S then 0 else if b = T then w1 a S + w1 a T else w1 a b)"
    using ne by (simp add: getOr0_rewriteRow [OF ne] w1_def split: option.splits)
  finally show ?thesis by (simp add: w1)
qed

lemma symmetric_mergeTopic:
  assumes "symmetric st" and "rowsDistinct st"
  shows "symmetric (snd (mergeTopic sourceTopic targetTopic st))"
proof (cases "fst (mergeTopic sourceTopic targetTopic st)")
  case True
  have sym: "strength st x y = strength st y x" for x y using assms(1) by (simp add: symmetric_def)
  show ?thesis
    unfolding symmetric_def strength_mergeTopic [OF True assms(2)]
    by (auto simp: sym)
next
  case False
  then have "snd (mergeTopic sourceTopic targetTopic st) = st"
    by (auto simp: mergeTopic_def Let_def split: option.splits if_splits)
  with assms(1) show ?thesis by simp
qed

lemma symmetric_trackObservation: "symmetric st \<Longrightarrow> symmetric (trackObservation now topics st)"
  by (simp add: symmetric_def strength_trackObservation)

subsection \<open>Rows stay maps\<close>

lemma in_set_update: "p \<in> set (AList.update k v al) \<Longrightarrow> p = (k, v) \<or> p \<in> set al"
  by (induction al) (auto split: if_splits)

lemma in_set_delete: "p \<in> set (AList.delete k al) \<Longrightarrow> p \<in> set al"
  by (simp add: AList.delete_eq)

lemma rowsDistinct_cong: "topicRelationships st' = topicRelationships st \<Longrightarrow> rowsDistinct st' = rowsDistinct st"
  by (simp add: rowsDistinct_def)

lemma rowsDistinct_emptyManager: "rowsDistinct emptyManager"
  by (simp add: rowsDistinct_def emptyManager_def)

lemma rowsDistinct_addTopic: "rowsDistinct st \<Longrightarrow> rowsDistinct (snd (addTopic now topic core st))"
  by (auto simp: rowsDistinct_def addTopic_def Let_def split: option.splits dest!: in_set_update)

lemma rowsDistinct_incrementRelationship:
  assumes "rowsDistinct st"
  shows "rowsDistinct (incrementRelationship topic1 topic2 st)"
proof -
  let ?row = "case map_of (topicRelationships st) topic1 of None \<Rightarrow> [] | Some r \<Rightarrow> r"
  have "distinct (map fst ?row)"
    using assms by (auto simp: rowsDistinct_def split: option.splits dest!: map_of_SomeD)
  then have "distinct (map fst (AList.update topic2 (strength st topic1 topic2 + 1) ?row))"
    by (rule distinct_update)
  with assms show ?thesis
    unfolding rowsDistinct_def relationships_incrementRelationship
    by (auto dest!: in_set_update)
qed

lemma rowsDistinct_pairs_with:
  "rowsDistinct st \<Longrightarrow>
   rowsDistinct (foldl (\<lambda>s topic2. incrementRelationship topic2 topic1 (incrementRelationship topic1 topic2 s)) st rest)"
  by (induction rest arbitrary: st) (simp_all add: rowsDistinct_incrementRelationship)

lemma rowsDistinct_updateTopicRelationships:
  "rowsDistinct st \<Longrightarrow> rowsDistinct (updateTopicRelationships topics st)"
  by (induction topics arbitrary: st) (simp_all add: rowsDistinct_pairs_with)

lemma rowsDistinct_observeTopic:
  "rowsDistinct st \<Longrightarrow> rowsDistinct (observeTopic now uniqueTopics st topic)"
  unfolding observeTopic_def Let_def
  by (rule rowsDistinct_updateTopicRelationships) (simp add: rowsDistinct_def split: option.splits)

lemma rowsDistinct_trackObservation:
  "rowsDistinct st \<Longrightarrow> rowsDistinct (trackObservation now topics st)"
proof -
  have "rowsDistinct s \<Longrightarrow> rowsDistinct (foldl (observeTopic now u) s ts)" for s u ts
    by (induction ts arbitrary: s) (simp_all add: rowsDistinct_observeTopic)
  then show "rowsDistinct st \<Longrightarrow> rowsDistinct (trackObservation now topics st)"
    by (simp add: trackObservation_def Let_def)
qed

lemma relationships_updateTopicMetadata [simp]:
  "topicRelationships (updateTopicMetadata now topic st) = topicRelationships st"
  by (simp add: updateTopicMetadata_def split: option.splits)

lemma rowsDistinct_discoverStep:
  "rowsDistinct (snd acc) \<Longrightarrow> rowsDistinct (snd (discoverStep now acc extracted))"
  by (auto simp: discoverStep_def Let_def rowsDistinct_addTopic rowsDistinct_def [of "updateTopicMetadata _ _ _"]
        rowsDistinct_def [of "_\<lparr>synonyms := _\<rparr>"] rowsDistinct_def [of "snd acc"]
      split: option.splits)

lemma rowsDistinct_discoverTopicsFromText:
  "rowsDistinct st \<Longrightarrow> rowsDistinct (snd (discoverTopicsFromText now extractedTopics st))"
proof -
  have "rowsDistinct (snd acc) \<Longrightarrow> rowsDistinct (snd (foldl (discoverStep now) acc xs))" for acc xs
    by (induction xs arbitrary: acc) (simp_all add: rowsDistinct_discoverStep)
  from this [of "([], st)"] show "rowsDistinct st \<Longrightarrow> ?thesis"
    by (simp add: discoverTopicsFromText_def)
qed

lemma distinct_foldRow:
  "distinct (map fst targetRelationships) \<Longrightarrow> distinct (map fst (foldRow targetRelationships sourceRelationships))"
  unfolding foldRow_def
  by (induction sourceRelationships arbitrary: targetRelationships) (simp_all add: distinct_update)

lemma distinct_rewriteRow:
  "distinct (map fst row) \<Longrightarrow> distinct (map fst (rewriteRow sourceCanonical targetCanonical row))"
  by (simp add: rewriteRow_def Let_def distinct_update distinct_delete)

lemma rowsDistinct_mergeTopic:
  assumes "rowsDistinct st"
  shows "rowsDistinct (snd (mergeTopic sourceTopic targetTopic st))"
proof (cases "fst (mergeTopic sourceTopic targetTopic st)")
  case True
  let ?T = "getCanonicalTopic st targetTopic" and ?S = "getCanonicalTopic st sourceTopic"
  let ?trow = "case map_of (topicRelationships st) ?T of None \<Rightarrow> [] | Some r \<Rightarrow> r"
  have t: "distinct (map fst ?trow)"
    using assms by (auto simp: rowsDistinct_def split: option.splits dest!: map_of_SomeD)
  have "distinct (map fst (snd p))"
    if "p \<in> set (case map_of (topicRelationships st) ?S of
             None \<Rightarrow> topicRelationships st
           | Some sourceRelationships \<Rightarrow>
               AList.update ?T (foldRow ?trow sourceRelationships) (topicRelationships st))" for p
    using that assms distinct_foldRow [OF t]
    by (auto simp: rowsDistinct_def split: option.splits dest!: in_set_update)
  then show ?thesis
    unfolding rowsDistinct_def mergeTopic_relationships [OF True]
    by (auto simp: distinct_rewriteRow dest!: in_set_delete)
next
  case False
  then have "snd (mergeTopic sourceTopic targetTopic st) = st"
    by (auto simp: mergeTopic_def Let_def split: option.splits if_splits)
  with assms show ?thesis by simp
qed

lemma reachable_rowsDistinct: "reachable st \<Longrightarrow> rowsDistinct st"
  by (induction rule: reachable.induct)
    (simp_all add: rowsDistinct_emptyManager rowsDistinct_addTopic rowsDistinct_discoverTopicsFromText
       rowsDistinct_trackObservation rowsDistinct_mergeTopic)

lemma reachable_symmetric_mergeTopic:
  "reachable st \<Longrightarrow> symmetric st \<Longrightarrow> symmetric (snd (mergeTopic sourceTopic targetTopic st))"
  by (simp add: symmetric_mergeTopic reachable_rowsDistinct)

subsection \<open>Keys and counts after a merge\<close>

lemma mergeTopic_effect:
  assumes ok: "fst (mergeTopic sourceTopic targetTopic st)"
  defines "S \<equiv> getCanonicalTopic st sourceTopic" and "T \<equiv> getCanonicalTopic st targetTopic"
  defines "st' \<equiv> snd (mergeTopic sourceTopic targetTopic st)"
  shows "\<not> has (discoveredTopics st') S"
    and "\<exists>m n. mentionsOf st S = Some m \<and> mentionsOf st T = Some n \<and> mentionsOf st' T = Some (m + n)"
    and "getCanonicalTopic st' targetTopic = T"
    and "getCanonicalTopic st' sourceTopic = T \<longleftrightarrow> normalizeTopic sourceTopic = S \<and> T \<noteq> []"
proof -
  have ne: "S \<noteq> T" using ok by (simp add: S_def T_def mergeTopic_distinct_keys)
  from ok obtain sm tm where sm: "map_of (discoveredTopics st) S = Some sm"
    and tm: "map_of (discoveredTopics st) T = Some tm"
    by (auto simp: mergeTopic_def Let_def S_def T_def split: if_splits option.splits)
  have syn: "synonyms st' = AList.update S T (synonyms st)"
    and disc: "discoveredTopics st' = AList.delete S (AList.update T
                 (tm\<lparr>observationCount := observationCount tm + observationCount sm,
                    mentionCount := mentionCount tm + mentionCount sm,
                    interestLevel := max (interestLevel tm) (interestLevel sm),
                    isCore := (if isCore sm then True else isCore tm),
                    relatedTopics := filter (\<lambda>t. t \<noteq> T) (newSet (relatedTopics tm @ relatedTopics sm))\<rparr>)
                 (discoveredTopics st))"
    using ok sm tm ne unfolding st'_def
    by (simp_all add: mergeTopic_def Let_def S_def [symmetric] T_def [symmetric])
  show "\<not> has (discoveredTopics st') S"
    by (simp add: has_def disc delete_conv')
  show "\<exists>m n. mentionsOf st S = Some m \<and> mentionsOf st T = Some n \<and> mentionsOf st' T = Some (m + n)"
    using ne by (simp add: mentionsOf_def sm tm disc delete_conv' update_conv')
  show "getCanonicalTopic st' targetTopic = T"
    using ne unfolding T_def S_def
    by (auto simp: getCanonicalTopic_def Let_def syn update_conv' S_def T_def split: option.splits if_splits)
  show "getCanonicalTopic st' sourceTopic = T \<longleftrightarrow> normalizeTopic sourceTopic = S \<and> T \<noteq> []"
    using ne unfolding T_def S_def
    by (auto simp: getCanonicalTopic_def Let_def syn update_conv' S_def T_def split: option.splits if_splits)
qed

subsection \<open>The scan of the local comparison\<close>

lemma length_newSet: "length (newSet xs) = card (set xs)"
  by (metis distinct_card distinct_newSet set_newSet)

lemma jaccard_card:
  "jaccard normalized existingTopic =
     real (card (set (split normalized) \<inter> set (split existingTopic)))
       / real (card (set (split normalized) \<union> set (split existingTopic)))"
proof -
  have "set (filter (\<lambda>word. word \<in> set (split existingTopic)) (newSet (split normalized)))
        = set (split normalized) \<inter> set (split existingTopic)"
    by auto
  then show ?thesis
    by (simp add: jaccard_def Let_def length_newSet)
qed

lemma jaccard_nonneg: "0 \<le> jaccard normalized existingTopic"
  by (simp add: jaccard_card)



subsection \<open>The code's tokens and the words of a key\<close>




section \<open>Claims about merging and synonyms\<close>

text \<open>
  C1. After a merge that returns true the two arguments are to resolve to the same key.
  With \<open>x\<close> already a synonym of the live topic \<open>y\<close>, the call \<open>mergeTopic x z\<close> merges \<open>y\<close>
  into \<open>z\<close> and returns true, but \<open>x\<close> still resolves to \<open>y\<close>, which is no longer live, while
  \<open>z\<close> resolves to \<open>z\<close>. (The source's key is gone and the counts are added, as
  \<open>mergeTopic_effect\<close> shows in general.)
\<close>

theorem merge_of_variant_not_resolved:
  "getCanonicalTopic mergedOnce ''x'' = ''y'' \<and> getCanonicalTopic mergedOnce ''z'' = ''z''
   \<and> has (discoveredTopics mergedOnce) ''y'' \<and> has (discoveredTopics mergedOnce) ''z''
   \<and> fst (mergeTopic ''x'' ''z'' mergedOnce)
   \<and> getCanonicalTopic (snd (mergeTopic ''x'' ''z'' mergedOnce)) ''x'' = ''y''
   \<and> getCanonicalTopic (snd (mergeTopic ''x'' ''z'' mergedOnce)) ''z'' = ''z''
   \<and> \<not> has (discoveredTopics (snd (mergeTopic ''x'' ''z'' mergedOnce))) ''y''"
  by (simp add: example_defs registry_defs normalizeTopic_letters)

text \<open>The same happens for a source that is its own canonical key when the target's key is
  the empty string: \<open>synonyms.get(n) || n\<close> reads the stored empty string as no entry.\<close>

lemma merge_into_empty_key_not_resolved:
  "getCanonicalTopic emptyKeyRegistered ''x'' = ''x'' \<and> getCanonicalTopic emptyKeyRegistered [] = []
   \<and> has (discoveredTopics emptyKeyRegistered) ''x'' \<and> has (discoveredTopics emptyKeyRegistered) []
   \<and> fst (mergeTopic ''x'' [] emptyKeyRegistered)
   \<and> getCanonicalTopic (snd (mergeTopic ''x'' [] emptyKeyRegistered)) ''x'' = ''x''
   \<and> getCanonicalTopic (snd (mergeTopic ''x'' [] emptyKeyRegistered)) [] = []"
  by (simp add: example_defs registry_defs normalizeTopic_letters)

text \<open>
  C2. The synonym map is to be one-hop in every reachable state. Merging \<open>x\<close> into \<open>y\<close> and
  then \<open>y\<close> into \<open>z\<close> leaves \<open>x \<mapsto> y\<close> beside \<open>y \<mapsto> z\<close>: the value \<open>y\<close> is a key of the map,
  and \<open>x\<close> resolves to \<open>y\<close>, which has no live record.
\<close>

theorem synonym_chain_after_two_merges:
  "reachable mergedTwice
   \<and> synonyms mergedTwice = [(''x'', ''y''), (''y'', ''z'')]
   \<and> map_of (synonyms mergedTwice) ''x'' = Some ''y'' \<and> has (synonyms mergedTwice) ''y''
   \<and> getCanonicalTopic mergedTwice ''x'' = ''y'' \<and> \<not> has (discoveredTopics mergedTwice) ''y''"
proof -
  have "reachable mergedTwice"
    unfolding example_defs by (intro reachable.intros)
  moreover have "synonyms mergedTwice = [(''x'', ''y''), (''y'', ''z'')]"
    and "\<not> has (discoveredTopics mergedTwice) ''y''"
    by (simp_all add: example_defs registry_defs normalizeTopic_letters)
  ultimately show ?thesis
    by (simp add: has_def getCanonicalTopic_def normalizeTopic_letters)
qed

text \<open>
  C10. There is a reachable state with two live topics joined by an edge, such that after
  their merge the surviving topic has an edge to itself and \<open>getRelatedTopics\<close> lists the
  topic among its own related topics.
\<close>

theorem merge_leaves_self_edge:
  "\<exists>st source target.
      reachable st \<and> has (discoveredTopics st) source \<and> has (discoveredTopics st) target
      \<and> 0 < strength st source target
      \<and> fst (mergeTopic source target st)
      \<and> 0 < strength (snd (mergeTopic source target st)) target target
      \<and> target \<in> set (getRelatedTopics (snd (mergeTopic source target st)) target 5)"
proof (intro exI conjI)
  show "reachable pairObserved"
    unfolding example_defs by (intro reachable.intros)
  show "has (discoveredTopics pairObserved) ''x''" "has (discoveredTopics pairObserved) ''y''"
    "0 < strength pairObserved ''x'' ''y''" "fst (mergeTopic ''x'' ''y'' pairObserved)"
    "0 < strength (snd (mergeTopic ''x'' ''y'' pairObserved)) ''y'' ''y''"
    "''y'' \<in> set (getRelatedTopics (snd (mergeTopic ''x'' ''y'' pairObserved)) ''y'' 5)"
    by (simp_all add: example_defs registry_defs normalizeTopic_letters)
qed

section \<open>Claims about the relationship graph\<close>

text \<open>
  C3. One observation is to add exactly 1 to the edge between two of its topics. The call
  of \<open>updateTopicRelationships\<close> stands inside the loop over the topics of the observation,
  so an observation of the two topics \<open>x\<close> and \<open>y\<close> adds 2 to each direction
  (\<open>strength_trackObservation\<close> gives the general count).
\<close>

theorem observation_of_two_adds_two:
  "strength twoTopics ''x'' ''y'' = 0 \<and> strength twoTopics ''y'' ''x'' = 0
   \<and> strength (trackObservation 0 [''x'', ''y''] twoTopics) ''x'' ''y'' = 2
   \<and> strength (trackObservation 0 [''x'', ''y''] twoTopics) ''y'' ''x'' = 2"
  by (simp add: example_defs registry_defs normalizeTopic_letters)

text \<open>
  C4. Edge weights are to be equal in both directions in every reachable state.
  \<open>trackObservation\<close> and \<open>mergeTopic\<close> keep them equal (\<open>symmetric_trackObservation\<close>,
  \<open>reachable_symmetric_mergeTopic\<close>), but \<open>addTopic\<close> gives a newly registered key an empty
  row also when observations of the unregistered key had already created one:
  after observing \<open>x\<close> with \<open>y\<close> and then registering \<open>x\<close>, the edge from \<open>x\<close> to \<open>y\<close> is 0 and
  the edge from \<open>y\<close> to \<open>x\<close> is 2.
\<close>

theorem addTopic_drops_one_direction:
  "reachable registeredLate
   \<and> strength registeredLate ''x'' ''y'' = 0 \<and> strength registeredLate ''y'' ''x'' = 2
   \<and> \<not> symmetric registeredLate"
proof -
  have r: "reachable registeredLate"
    unfolding example_defs by (intro reachable.intros)
  have s: "strength registeredLate ''x'' ''y'' = 0" "strength registeredLate ''y'' ''x'' = 2"
    by (simp_all add: example_defs registry_defs normalizeTopic_letters)
  have "\<not> symmetric registeredLate"
  proof
    assume "symmetric registeredLate"
    then have "strength registeredLate ''x'' ''y'' = strength registeredLate ''y'' ''x''"
      by (simp add: symmetric_def)
    with s show False by simp
  qed
  with r s show ?thesis by simp
qed

section \<open>Claims about the local comparison\<close>




text \<open>Where a key has a repeated space the code's similarity is not the word-set one: the
  empty piece between the two spaces counts as a token. The key of \<open>b - c d e f g h\<close> scores
  6/8 against the candidate \<open>b c d e f g\<close>, below the default threshold, while the two sets of
  words give 6/7.\<close>

lemma repeated_space_key_scores_lower:
  "map fst (discoveredTopics spacedKey) = [''b  c d e f g h'']
   \<and> jaccard ''b c d e f g'' ''b  c d e f g h'' = 3 / 4
   \<and> wordSetJaccard ''b c d e f g'' ''b  c d e f g h'' = 6 / 7
   \<and> findSimilarTopic None ''b c d e f g'' similarityThreshold spacedKey = None"
proof -
  have n: "normalizeTopic ''b - c d e f g h'' = ''b  c d e f g h''"
    "normalizeTopic ''b c d e f g'' = ''b c d e f g''"
    by (simp_all add: string_defs)
  have keys: "map fst (discoveredTopics spacedKey) = [''b  c d e f g h'']"
    by (simp add: spacedKey_def addTopic_def emptyManager_def Let_def n)
  have j: "jaccard ''b c d e f g'' ''b  c d e f g h'' = 3 / 4"
    by (simp add: jaccard_def newSet_def setAdd_def)
  have w: "wordSetJaccard ''b c d e f g'' ''b  c d e f g h'' = 6 / 7"
    by (simp add: wordSetJaccard_def tokens_def collapseWhiteSpace_def isWhiteSpace_def card_insert_if)
  have "findSimilarTopic None ''b c d e f g'' similarityThreshold spacedKey = None"
    using keys j
    by (simp add: findSimilarTopic_def findSimilarTopicByComparison_def compareStep_def n has_def
        spacedKey_def addTopic_def emptyManager_def Let_def similarityThreshold_def)
  with keys j w show ?thesis by simp
qed

end
